theory Spec2Isabelle
  imports Complex_Main
begin

section \<open>Numbers and buffers\<close>

text \<open>
  The pipeline of \<^verbatim>\<open>src/src/App.jsx\<close> computes with JavaScript numbers (IEEE doubles)
  and keeps its masks in \<^verbatim>\<open>Float32Array\<close>s. Finite numbers are modelled as exact reals:
  rounding is not modelled. The one non-finite value the blender can produce from finite
  input, NaN from \<^verbatim>\<open>0 / 0\<close>, is modelled explicitly, as is the \<^verbatim>\<open>+Infinity\<close> of
  \<^verbatim>\<open>x / 0\<close> for positive \<^verbatim>\<open>x\<close>. Counters are natural numbers.
\<close>

definition SEG_WIDTH :: nat where
  "SEG_WIDTH = 256"

definition SEG_HEIGHT :: nat where
  "SEG_HEIGHT = 144"

text \<open>
  The contents of the persistent blend buffer \<^verbatim>\<open>blendMaskRef.current\<close>: either finite cells,
  or a buffer of the given length whose every cell is NaN.
\<close>

datatype maskbuf = Cells "real list" | NaNs nat

fun buflen :: "maskbuf \<Rightarrow> nat" where
  "buflen (Cells bs) = length bs"
| "buflen (NaNs n) = n"

section \<open>Temporal mask blender\<close>

text \<open>
  \<^verbatim>\<open>let diff = 0; for (let i = 0; i < mask.length; i += 16) diff += Math.abs(mask[i] - prev[i]);\<close>
  The loop with its index \<open>i\<close> and accumulator \<open>diff\<close>.
\<close>

function stridedDiff :: "real list \<Rightarrow> real list \<Rightarrow> nat \<Rightarrow> real \<Rightarrow> real" where
  "stridedDiff raw prev i diff =
     (if i < length raw
      then stridedDiff raw prev (i + 16) (diff + \<bar>raw ! i - prev ! i\<bar>)
      else diff)"
  by pat_completeness auto
termination
  by (relation "measure (\<lambda>(raw, prev, i, diff). length raw - i)") auto

declare stridedDiff.simps [simp del]

text \<open>
  \<^verbatim>\<open>diff /= (mask.length >> 4); const globalAlpha = Math.min(0.9, 0.15 + diff * 6.0);\<close>
  When the mask has fewer than 16 cells the divisor is 0: \<^verbatim>\<open>0 / 0\<close> is NaN and
  \<^verbatim>\<open>Math.min(0.9, NaN)\<close> is NaN (the result \<open>None\<close>); a positive sum divided by 0 is
  \<^verbatim>\<open>+Infinity\<close>, and \<^verbatim>\<open>Math.min(0.9, Infinity)\<close> is 0.9.
\<close>

definition globalAlpha :: "real list \<Rightarrow> real list \<Rightarrow> real option" where
  "globalAlpha raw prev =
     (let s = stridedDiff raw prev 0 0;
          c = length raw div 16
      in if c = 0 then (if s = 0 then None else Some (9 / 10))
         else Some (min (9 / 10) (15 / 100 + s / real c * 6)))"

text \<open>
  \<^verbatim>\<open>const uncertainty = 1.0 - Math.abs(curr * 2.0 - 1.0);\<close>
  \<^verbatim>\<open>const localAlpha = globalAlpha + uncertainty * (1.0 - globalAlpha);\<close>
\<close>

definition uncertaintyOf :: "real \<Rightarrow> real" where
  "uncertaintyOf cur = 1 - \<bar>cur * 2 - 1\<bar>"

definition localAlpha :: "real \<Rightarrow> real \<Rightarrow> real" where
  "localAlpha ga cur = ga + uncertaintyOf cur * (1 - ga)"

text \<open>
  \<^verbatim>\<open>for (let i = 0; i < mask.length; i++) blend[i] = curr * localAlpha + blend[i] * (1.0 - localAlpha);\<close>
  The buffers have the same length when the loop runs.
\<close>

fun blendCells :: "real \<Rightarrow> real list \<Rightarrow> real list \<Rightarrow> real list" where
  "blendCells ga (cur # raw) (b # blend) =
     (cur * localAlpha ga cur + b * (1 - localAlpha ga cur)) # blendCells ga raw blend"
| "blendCells ga raw blend = []"

text \<open>
  The blender of \<^verbatim>\<open>draw\<close>: \<^verbatim>\<open>const prev = blendMaskRef.current;\<close>
  \<^verbatim>\<open>const hasPrev = prev && prev.length === mask.length;\<close> Without a previous buffer of the
  same length the new buffer is \<^verbatim>\<open>new Float32Array(mask)\<close>. A NaN blend weight makes every
  cell NaN, and a NaN buffer makes the sampled difference, hence the weight, NaN again.
\<close>

fun temporalBlend :: "maskbuf option \<Rightarrow> real list \<Rightarrow> maskbuf" where
  "temporalBlend None raw = Cells raw"
| "temporalBlend (Some (Cells prev)) raw =
     (if length prev \<noteq> length raw then Cells raw
      else case globalAlpha raw prev of
             Some ga \<Rightarrow> Cells (blendCells ga raw prev)
           | None \<Rightarrow> if raw = [] then Cells [] else NaNs (length raw))"
| "temporalBlend (Some (NaNs n)) raw =
     (if n \<noteq> length raw then Cells raw
      else if raw = [] then Cells [] else NaNs n)"

subsection \<open>The spec's words\<close>





section \<open>Load controller\<close>

text \<open>
  \<^verbatim>\<open>const avg = avgFrameTimeRef.current = avgFrameTimeRef.current * 0.9 + segTime * 0.1;\<close>
  \<^verbatim>\<open>if (avg > 8 && skipIntervalRef.current < 2) skipIntervalRef.current++;\<close>
  \<^verbatim>\<open>else if (avg < 3 && skipIntervalRef.current > 1) skipIntervalRef.current--;\<close>
  The pair is (\<^verbatim>\<open>avgFrameTimeRef.current\<close>, \<^verbatim>\<open>skipIntervalRef.current\<close>).
\<close>

definition loadController :: "real \<times> nat \<Rightarrow> real \<Rightarrow> real \<times> nat" where
  "loadController st segT =
     (let avg = fst st * (9 / 10) + segT * (1 / 10);
          skip = snd st
      in (avg, if avg > 8 \<and> skip < 2 then skip + 1
               else if avg < 3 \<and> skip > 1 then skip - 1
               else skip))"



text \<open>
  What holds of the pair in every state the controller reaches: the interval is 1 or 2, and
  it is 1 whenever the average is below the lower threshold.
\<close>

definition loadInv :: "real \<times> nat \<Rightarrow> bool" where
  "loadInv st = (1 \<le> snd st \<and> snd st \<le> 2 \<and> (fst st < 3 \<longrightarrow> snd st = 1))"

section \<open>Fragment shader\<close>

type_synonym vec2 = "real \<times> real"
type_synonym vec4 = "real \<times> real \<times> real \<times> real"
type_synonym sampler2D = "vec2 \<Rightarrow> vec4"

text \<open>The GLSL built-ins that \<^verbatim>\<open>FRAG_SRC\<close> uses, as GLSL ES 3.00 defines them.\<close>

definition glsl_clamp :: "real \<Rightarrow> real \<Rightarrow> real \<Rightarrow> real" where
  "glsl_clamp x lo hi = min (max x lo) hi"

definition glsl_mix :: "real \<Rightarrow> real \<Rightarrow> real \<Rightarrow> real" where
  "glsl_mix x y a = x * (1 - a) + y * a"

definition glsl_step :: "real \<Rightarrow> real \<Rightarrow> real" where
  "glsl_step edge x = (if x < edge then 0 else 1)"

definition glsl_smoothstep :: "real \<Rightarrow> real \<Rightarrow> real \<Rightarrow> real" where
  "glsl_smoothstep e0 e1 x =
     (let t = glsl_clamp ((x - e0) / (e1 - e0)) 0 1 in t * t * (3 - 2 * t))"

definition glsl_length :: "vec2 \<Rightarrow> real" where
  "glsl_length v = sqrt (fst v * fst v + snd v * snd v)"

fun mix4 :: "vec4 \<Rightarrow> vec4 \<Rightarrow> real \<Rightarrow> vec4" where
  "mix4 (x1, x2, x3, x4) (y1, y2, y3, y4) a =
     (glsl_mix x1 y1 a, glsl_mix x2 y2 a, glsl_mix x3 y3 a, glsl_mix x4 y4 a)"

fun red :: "vec4 \<Rightarrow> real" where
  "red (r, g, b, a) = r"

text \<open>\<^verbatim>\<open>dot(c.rgb, luma)\<close> with \<^verbatim>\<open>const vec3 luma = vec3(0.299, 0.587, 0.114)\<close>.\<close>

fun lumaOf :: "vec4 \<Rightarrow> real" where
  "lumaOf (r, g, b, a) = r * (299 / 1000) + g * (587 / 1000) + b * (114 / 1000)"

record uniforms =
  u_video :: sampler2D
  u_mask :: sampler2D
  u_rawMask :: sampler2D
  u_bg :: sampler2D
  u_mode :: nat
  u_texelSize :: vec2
  u_maskTexelSize :: vec2

text \<open>
  Pass 1, joint bilateral upsampling. The accumulator is (\<^verbatim>\<open>mRaw\<close>, \<^verbatim>\<open>mBlend\<close>,
  \<^verbatim>\<open>totalW\<close>); the two nested loops visit \<^verbatim>\<open>dy\<close> then \<^verbatim>\<open>dx\<close> from -1 to 1, and
  the weight of one tap is \<^verbatim>\<open>w = wS * wR\<close>.
\<close>

definition offsets :: "(int \<times> int) list" where
  "offsets = concat (map (\<lambda>dy. map (\<lambda>dx. (dx, dy)) [-1, 0, 1]) [-1, 0, 1])"

definition tapWeight :: "uniforms \<Rightarrow> vec2 \<Rightarrow> int \<times> int \<Rightarrow> real" where
  "tapWeight U uv d =
     (let dx = fst d; dy = snd d;
          mUV = (fst uv + real_of_int dx * fst (u_maskTexelSize U),
                 snd uv + real_of_int dy * snd (u_maskTexelSize U));
          lumC = lumaOf (u_video U uv);
          lumN = lumaOf (u_video U mUV);
          wS = exp (- real_of_int (dx * dx + dy * dy) * (1 / 2));
          dL = lumN - lumC;
          wR = exp (- dL * dL * 35)
      in wS * wR)"

fun upsampleLoop :: "uniforms \<Rightarrow> vec2 \<Rightarrow> (int \<times> int) list \<Rightarrow> real \<times> real \<times> real
                     \<Rightarrow> real \<times> real \<times> real" where
  "upsampleLoop U uv [] acc = acc"
| "upsampleLoop U uv (d # ds) (mRaw, mBlend, totalW) =
     (let mUV = (fst uv + real_of_int (fst d) * fst (u_maskTexelSize U),
                 snd uv + real_of_int (snd d) * snd (u_maskTexelSize U));
          rawV = red (u_rawMask U mUV);
          blndV = red (u_mask U mUV);
          w = tapWeight U uv d
      in upsampleLoop U uv ds (mRaw + rawV * w, mBlend + blndV * w, totalW + w))"

text \<open>\<^verbatim>\<open>mRaw /= totalW; mBlend /= totalW;\<close> The result is (\<^verbatim>\<open>mRaw\<close>, \<^verbatim>\<open>mBlend\<close>).\<close>

definition upsample :: "uniforms \<Rightarrow> vec2 \<Rightarrow> real \<times> real" where
  "upsample U uv =
     (case upsampleLoop U uv offsets (0, 0, 0) of
        (mRaw, mBlend, totalW) \<Rightarrow> (mRaw / totalW, mBlend / totalW))"

text \<open>
  Pass 2: \<^verbatim>\<open>float uncertainty = 1.0 - abs(mRaw * 2.0 - 1.0);\<close>
  \<^verbatim>\<open>float m = mix(mBlend, mRaw, clamp(uncertainty * 2.0, 0.0, 1.0));\<close>
\<close>

definition boundaryMix :: "real \<Rightarrow> real \<Rightarrow> real" where
  "boundaryMix mRaw mBlend =
     glsl_mix mBlend mRaw (glsl_clamp ((1 - \<bar>mRaw * 2 - 1\<bar>) * 2) 0 1)"

text \<open>
  Pass 3: the luma gradient from the four neighbours one video texel away,
  \<^verbatim>\<open>float videoEdge = clamp(length(vec2(lumR - lumL, lumU - lumD)) * 7.0, 0.0, 1.0);\<close>
\<close>

definition videoEdge :: "uniforms \<Rightarrow> vec2 \<Rightarrow> real" where
  "videoEdge U uv =
     (let tx = fst (u_texelSize U); ty = snd (u_texelSize U);
          lumR = lumaOf (u_video U (fst uv + tx, snd uv + 0));
          lumL = lumaOf (u_video U (fst uv + - tx, snd uv + 0));
          lumU = lumaOf (u_video U (fst uv + 0, snd uv + ty));
          lumD = lumaOf (u_video U (fst uv + 0, snd uv + - ty))
      in glsl_clamp (glsl_length (lumR - lumL, lumU - lumD) * 7) 0 1)"

text \<open>
  \<^verbatim>\<open>float mSnap = step(0.5, m); m = mix(m, mSnap, videoEdge * uncertainty * 0.85);\<close>
\<close>

definition edgeSnap :: "real \<Rightarrow> real \<Rightarrow> real \<Rightarrow> real" where
  "edgeSnap m vEdge uncertainty =
     glsl_mix m (glsl_step (1 / 2) m) (vEdge * uncertainty * (85 / 100))"

text \<open>The mask value of a Composite-mode pixel after pass 3, before the final feather.\<close>

definition preFeather :: "uniforms \<Rightarrow> vec2 \<Rightarrow> real" where
  "preFeather U uv =
     (case upsample U uv of
        (mRaw, mBlend) \<Rightarrow>
          edgeSnap (boundaryMix mRaw mBlend) (videoEdge U uv) (1 - \<bar>mRaw * 2 - 1\<bar>))"

text \<open>
  \<^verbatim>\<open>main\<close> of \<^verbatim>\<open>FRAG_SRC\<close>: \<^verbatim>\<open>if (u_mode == 0) { fragColor = vid; return; }\<close>, otherwise the
  three passes, \<^verbatim>\<open>m = smoothstep(0.33, 0.67, m)\<close> and \<^verbatim>\<open>fragColor = mix(bg, vid, m)\<close>.
\<close>

definition frag_main :: "uniforms \<Rightarrow> vec2 \<Rightarrow> vec4" where
  "frag_main U v_uv =
     (let vid = u_video U v_uv
      in if u_mode U = 0 then vid
         else mix4 (u_bg U v_uv) vid
                (glsl_smoothstep (33 / 100) (67 / 100) (preFeather U v_uv)))"


text \<open>
  A test pattern for the shader: a frame black on its left half and white on its right, and
  uniforms with that frame, both masks at 0.5 everywhere, Composite mode, a 640x480 video
  and the 256x144 mask grid.
\<close>

definition halfWhite :: sampler2D where
  "halfWhite p = (if 1 / 2 < fst p then (1, 1, 1, 1) else (0, 0, 0, 1))"

definition snapUniforms :: uniforms where
  "snapUniforms =
     \<lparr>u_video = halfWhite,
      u_mask = (\<lambda>p. (1 / 2, 0, 0, 1)),
      u_rawMask = (\<lambda>p. (1 / 2, 0, 0, 1)),
      u_bg = (\<lambda>p. (0, 0, 1, 1)),
      u_mode = 1,
      u_texelSize = (1 / 640, 1 / 480),
      u_maskTexelSize = (1 / 256, 1 / 144)\<rparr>"

section \<open>Frame pump\<close>

text \<open>
  What one call of \<^verbatim>\<open>draw\<close> reads from outside: the video element (\<open>None\<close> when
  \<^verbatim>\<open>videoRef.current\<close> is null), the refs written by the UI, and what the segmenter and the
  clock do if this iteration calls them.
\<close>

record video =
  videoWidth :: nat
  videoHeight :: nat
  paused :: bool
  ended :: bool
  pixels :: sampler2D

text \<open>
  The outcome of \<^verbatim>\<open>segmenterRef.current.segment(...)\<close> inside the \<^verbatim>\<open>try\<close>: it throws, it returns
  no confidence mask, or \<^verbatim>\<open>confidenceMasks[0].getAsFloat32Array()\<close> yields an array.
\<close>

datatype segResult = Threw | NoMasks | Masks "real list"

record tick =
  videoEl :: "video option"
  curBg :: string
  curReady :: bool
  segmenter :: bool
  segOutcome :: segResult
  segTime :: real
  curUploaded :: "string option"
  bgImages :: "string \<Rightarrow> string option"

text \<open>
  The entries of \<^verbatim>\<open>BACKGROUNDS\<close> with the two fields \<^verbatim>\<open>draw\<close> reads, \<^verbatim>\<open>id\<close> and \<^verbatim>\<open>type\<close>.
  \<^verbatim>\<open>draw\<close> also tests for the type \<^verbatim>\<open>"blur"\<close>, which no entry of the table has.
\<close>

datatype bgType = TNone | TImage | TUpload | TBlur

definition BACKGROUNDS :: "(string \<times> bgType) list" where
  "BACKGROUNDS =
     [(''none'', TNone), (''living-room'', TImage), (''home-office'', TImage),
      (''library'', TImage), (''upload'', TUpload)]"

text \<open>
  What the background texture holds: the 1x1 pixel written by \<^verbatim>\<open>initWebGL\<close>, the blur canvas
  drawn from a frame at the given size, a preset image or the uploaded image (by source).
\<close>

datatype bgContent =
    BgPlaceholder
  | BgBlur sampler2D nat nat
  | BgImage string
  | BgUpload string

text \<open>
  The refs of \<^verbatim>\<open>useBackgroundEffect\<close> that \<^verbatim>\<open>draw\<close> reads and writes, and the GPU state it
  sets: the \<^verbatim>\<open>u_texelSize\<close> uniform and the data last handed to each of the four textures.
\<close>

record state =
  lastDims :: "nat \<times> nat"
  lastBgKey :: "string option"
  frameCount :: nat
  maskAlloc :: "nat \<times> nat"
  hasMask :: bool
  blendMask :: "maskbuf option"
  avgFrameTime :: real
  skipInterval :: nat
  texelSize :: vec2
  videoTex :: "sampler2D option"
  rawMaskTex :: "real list option"
  maskTex :: "maskbuf option"
  bgTex :: bgContent

definition initState :: state where
  "initState =
     \<lparr>lastDims = (0, 0), lastBgKey = None, frameCount = 0, maskAlloc = (0, 0),
      hasMask = False, blendMask = None, avgFrameTime = 16, skipInterval = 1,
      texelSize = (0, 0), videoTex = None, rawMaskTex = None, maskTex = None,
      bgTex = BgPlaceholder\<rparr>"

text \<open>
  The calls of one iteration that the claims are about, in the order \<^verbatim>\<open>draw\<close> makes them:
  \<^item> \<open>AllocVideoTex w h\<close>: the resize branch (canvas size, viewport, \<^verbatim>\<open>u_texelSize\<close> and
    \<^verbatim>\<open>texImage2D\<close> with \<^verbatim>\<open>null\<close> data on the video texture);
  \<^item> \<open>UploadVideoFrame\<close>: \<^verbatim>\<open>texSubImage2D\<close> of the video element;
  \<^item> \<open>Segment\<close>: the call of \<^verbatim>\<open>segment\<close>;
  \<^item> \<open>AllocRawMaskTex\<close>, \<open>AllocMaskTex\<close>: \<^verbatim>\<open>texImage2D\<close> on a mask texture;
    \<open>UpdateRawMaskTex\<close>, \<open>UpdateMaskTex\<close>: \<^verbatim>\<open>texSubImage2D\<close> on it;
  \<^item> \<open>UploadBg\<close>: \<^verbatim>\<open>texImage2D\<close> on the background texture;
  \<^item> \<open>Draw mode\<close>: \<^verbatim>\<open>drawArrays\<close> with \<^verbatim>\<open>u_mode\<close> set to \<open>mode\<close>.
\<close>

datatype event =
    AllocVideoTex nat nat
  | UploadVideoFrame
  | Segment
  | AllocRawMaskTex
  | UpdateRawMaskTex
  | AllocMaskTex
  | UpdateMaskTex
  | UploadBg
  | Draw nat

text \<open>\<^verbatim>\<open>const w = video.videoWidth || 640; const h = video.videoHeight || 480;\<close>\<close>

definition frameDims :: "video \<Rightarrow> nat \<times> nat" where
  "frameDims v =
     (if videoWidth v = 0 then 640 else videoWidth v,
      if videoHeight v = 0 then 480 else videoHeight v)"

text \<open>
  Lines 1701 to 1713: the resize branch when the dimensions differ from \<^verbatim>\<open>lastDimsRef\<close>, then
  the upload of the frame.
\<close>

definition uploadVideo :: "video \<Rightarrow> state \<Rightarrow> state \<times> event list" where
  "uploadVideo v s =
     (let d = frameDims v;
          r = (if lastDims s \<noteq> d
               then (s\<lparr>texelSize := (1 / real (fst d), 1 / real (snd d)),
                       videoTex := None, lastDims := d\<rparr>,
                     [AllocVideoTex (fst d) (snd d)])
               else (s, []))
      in ((fst r)\<lparr>videoTex := Some (pixels v)\<rparr>, snd r @ [UploadVideoFrame]))"

text \<open>
  The body of \<^verbatim>\<open>if (mask) { ... }\<close>: upload of the raw mask, the temporal blender, upload of
  the blended mask, \<^verbatim>\<open>hasMaskRef.current = true\<close>.
\<close>

definition maskUpdate :: "real list \<Rightarrow> state \<Rightarrow> state \<times> event list" where
  "maskUpdate m s =
     (let fresh = (maskAlloc s \<noteq> (SEG_WIDTH, SEG_HEIGHT));
          b = temporalBlend (blendMask s) m
      in (s\<lparr>rawMaskTex := Some m, blendMask := Some b, maskTex := Some b,
            maskAlloc := (SEG_WIDTH, SEG_HEIGHT), hasMask := True\<rparr>,
          [if fresh then AllocRawMaskTex else UpdateRawMaskTex,
           if fresh then AllocMaskTex else UpdateMaskTex]))"

text \<open>
  The body of \<^verbatim>\<open>if (shouldSegment) { ... }\<close>: the segmenter call under \<^verbatim>\<open>try\<close>/\<^verbatim>\<open>catch\<close>, the
  mask update when a mask came back, then the load controller in every case.
\<close>

definition segmentStep :: "tick \<Rightarrow> state \<Rightarrow> state \<times> event list" where
  "segmentStep t s =
     (let r = (case segOutcome t of
                 Masks m \<Rightarrow> maskUpdate m s
               | Threw \<Rightarrow> (s, [])
               | NoMasks \<Rightarrow> (s, []));
          l = loadController (avgFrameTime (fst r), skipInterval (fst r)) (segTime t)
      in ((fst r)\<lparr>avgFrameTime := fst l, skipInterval := snd l\<rparr>, Segment # snd r))"

text \<open>
  \<^verbatim>\<open>frameCountRef.current % skipIntervalRef.current === 0\<close>; the remainder by 0 is NaN in
  JavaScript, which is not \<^verbatim>\<open>=== 0\<close>.
\<close>

definition shouldSegment :: "state \<Rightarrow> bool" where
  "shouldSegment s = (skipInterval s \<noteq> 0 \<and> frameCount s mod skipInterval s = 0)"

text \<open>
  Lines 1795 to 1820: \<^verbatim>\<open>BACKGROUNDS.find((b) => b.id === curBg)\<close> and the upload that the
  entry's type asks for. \<^verbatim>\<open>Math.round(w / 2)\<close> of a natural number is \<open>(w + 1) div 2\<close>.
\<close>

definition uploadBackground :: "tick \<Rightarrow> video \<Rightarrow> state \<Rightarrow> state \<times> event list" where
  "uploadBackground t v s =
     (case find (\<lambda>b. fst b = curBg t) BACKGROUNDS of
        Some (bid, TBlur) \<Rightarrow>
          (s\<lparr>bgTex := BgBlur (pixels v) ((fst (frameDims v) + 1) div 2)
                                           ((snd (frameDims v) + 1) div 2),
             lastBgKey := None\<rparr>, [UploadBg])
      | Some (bid, TImage) \<Rightarrow>
          (case bgImages t bid of
             Some img \<Rightarrow>
               if lastBgKey s \<noteq> Some bid
               then (s\<lparr>bgTex := BgImage img, lastBgKey := Some bid\<rparr>, [UploadBg])
               else (s, [])
           | None \<Rightarrow> (s, []))
      | Some (bid, TUpload) \<Rightarrow>
          (case curUploaded t of
             Some src \<Rightarrow>
               if lastBgKey s \<noteq> Some (''upload:'' @ src)
               then (s\<lparr>bgTex := BgUpload src, lastBgKey := Some (''upload:'' @ src)\<rparr>,
                     [UploadBg])
               else (s, [])
           | None \<Rightarrow> (s, []))
      | Some (bid, TNone) \<Rightarrow> (s, [])
      | None \<Rightarrow> (s, []))"

text \<open>
  One call of \<^verbatim>\<open>draw\<close>. Without a video element, or with the video paused or ended, the
  iteration only reschedules itself.
\<close>

definition draw :: "tick \<Rightarrow> state \<Rightarrow> state \<times> event list" where
  "draw t s =
     (case videoEl t of
        None \<Rightarrow> (s, [])
      | Some v \<Rightarrow>
          if paused v \<or> ended v then (s, [])
          else
            let u = uploadVideo v s
            in if curBg t = ''none'' \<or> \<not> curReady t \<or> \<not> segmenter t
               then (fst u, snd u @ [Draw 0])
               else
                 let s1 = (fst u)\<lparr>frameCount := frameCount (fst u) + 1\<rparr>;
                     g = (if shouldSegment s1 then segmentStep t s1 else (s1, []))
                 in if \<not> hasMask (fst g)
                    then (fst g, snd u @ snd g @ [Draw 0])
                    else
                      let b = uploadBackground t v (fst g)
                      in (fst b, snd u @ snd g @ snd b @ [Draw 1]))"

text \<open>The pump over a sequence of ticks: the final state and the calls of each iteration.\<close>

fun run :: "tick list \<Rightarrow> state \<Rightarrow> state \<times> event list list" where
  "run [] s = (s, [])"
| "run (t # ts) s =
     (let r = draw t s; q = run ts (fst r) in (fst q, snd r # snd q))"

text \<open>An iteration that draws: there is a video element and it is playing.\<close>

definition playing :: "tick \<Rightarrow> bool" where
  "playing t = (case videoEl t of None \<Rightarrow> False | Some v \<Rightarrow> \<not> paused v \<and> \<not> ended v)"

text \<open>An iteration that acquired a mask: it called the segmenter and an array came back.\<close>

definition acquired :: "tick \<Rightarrow> event list \<Rightarrow> bool" where
  "acquired t evs =
     (Segment \<in> set evs \<and> (case segOutcome t of Masks m \<Rightarrow> True | _ \<Rightarrow> False))"

definition isAlloc :: "event \<Rightarrow> bool" where
  "isAlloc e = (case e of AllocVideoTex w h \<Rightarrow> True | _ \<Rightarrow> False)"

definition isDraw :: "event \<Rightarrow> bool" where
  "isDraw e = (case e of Draw m \<Rightarrow> True | _ \<Rightarrow> False)"

text \<open>A cell of a mask lies in the range of a confidence value.\<close>

definition inUnit :: "real \<Rightarrow> bool" where
  "inUnit x = (0 \<le> x \<and> x \<le> 1)"





text \<open>
  Inputs for sample sessions: a playing video of the given size showing the test pattern,
  and a tick with that video, the given background, a ready segmenter, the given segmenter
  outcome and latency, no uploaded image and no preset image loaded yet.
\<close>

definition sampleVideo :: "nat \<times> nat \<Rightarrow> video" where
  "sampleVideo d =
     \<lparr>videoWidth = fst d, videoHeight = snd d, paused = False, ended = False,
      pixels = halfWhite\<rparr>"

definition sampleTick :: "nat \<times> nat \<Rightarrow> string \<Rightarrow> segResult \<Rightarrow> real \<Rightarrow> tick" where
  "sampleTick d bg r lat =
     \<lparr>videoEl = Some (sampleVideo d), curBg = bg, curReady = True, segmenter = True,
      segOutcome = r, segTime = lat, curUploaded = None, bgImages = (\<lambda>b. None)\<rparr>"

text \<open>A tick with a playing video whose frame dimensions are \<open>d\<close>.\<close>

definition showsDims :: "tick \<Rightarrow> nat \<times> nat \<Rightarrow> bool" where
  "showsDims t d =
     (case videoEl t of
        None \<Rightarrow> False
      | Some v \<Rightarrow> \<not> paused v \<and> \<not> ended v \<and> frameDims v = d)"

section \<open>The blender: sampled difference and blend weights\<close>






























section \<open>The blender on a static scene\<close>
























section \<open>The load controller\<close>


lemma loadInv_step: "loadInv st \<Longrightarrow> loadInv (loadController st x)"
  by (auto simp: loadInv_def loadController_def Let_def)





















section \<open>The shader: upsampling and edge snap\<close>

lemma tapWeight_pos: "0 < tapWeight U uv d"
  by (simp add: tapWeight_def Let_def)

lemma upsampleLoop_bounds:
  assumes "\<forall>p. inUnit (red (u_rawMask U p))"
  shows "0 \<le> r \<Longrightarrow> r \<le> t \<Longrightarrow>
         (case upsampleLoop U uv ds (r, b, t) of
            (r', b', t') \<Rightarrow> 0 \<le> r' \<and> r' \<le> t' \<and> t \<le> t' \<and> (ds \<noteq> [] \<longrightarrow> t < t'))"
proof (induction ds arbitrary: r b t)
  case Nil
  then show ?case by simp
next
  case (Cons d ds)
  let ?mUV = "(fst uv + real_of_int (fst d) * fst (u_maskTexelSize U),
               snd uv + real_of_int (snd d) * snd (u_maskTexelSize U))"
  let ?v = "red (u_rawMask U ?mUV)"
  let ?w = "tapWeight U uv d"
  have w: "0 < ?w" by (rule tapWeight_pos)
  from assms have v: "0 \<le> ?v" "?v \<le> 1" by (simp_all add: inUnit_def)
  have a: "0 \<le> r + ?v * ?w" using Cons.prems v w by simp
  have "?v * ?w \<le> 1 * ?w" using v w by (intro mult_right_mono) simp_all
  then have b: "r + ?v * ?w \<le> t + ?w" using Cons.prems by simp
  from Cons.IH[OF a b, of "b + red (u_mask U ?mUV) * ?w"] w
  show ?case by (auto simp: Let_def split: prod.splits)
qed

lemma upsample_raw_range:
  assumes "\<forall>p. inUnit (red (u_rawMask U p))"
  shows "inUnit (fst (upsample U uv))"
proof -
  obtain r b t where e: "upsampleLoop U uv offsets (0, 0, 0) = (r, b, t)"
    by (cases "upsampleLoop U uv offsets (0, 0, 0)") auto
  have "offsets \<noteq> []" by (simp add: offsets_def)
  with upsampleLoop_bounds[OF assms, where r = 0 and t = 0 and b = 0 and uv = uv and ds = offsets] e
  have "0 \<le> r" "r \<le> t" "0 < t" by simp_all
  then show ?thesis by (simp add: upsample_def e inUnit_def)
qed

lemma upsampleLoop_const:
  assumes "\<forall>p. red (u_rawMask U p) = c" and "\<forall>p. red (u_mask U p) = e"
  shows "\<exists>t'. t \<le> t' \<and> (ds \<noteq> [] \<longrightarrow> t < t')
              \<and> upsampleLoop U uv ds (c * t, e * t, t) = (c * t', e * t', t')"
proof (induction ds arbitrary: t)
  case Nil
  show ?case by simp
next
  case (Cons d ds)
  let ?w = "tapWeight U uv d"
  have w: "0 < ?w" by (rule tapWeight_pos)
  from Cons.IH[of "t + ?w"] obtain t' where
    t': "t + ?w \<le> t'"
    "upsampleLoop U uv ds (c * (t + ?w), e * (t + ?w), t + ?w) = (c * t', e * t', t')"
    by blast
  have "upsampleLoop U uv (d # ds) (c * t, e * t, t)
          = upsampleLoop U uv ds (c * (t + ?w), e * (t + ?w), t + ?w)"
    using assms by (simp add: Let_def algebra_simps)
  with t' w show ?case by (intro exI[of _ t']) simp
qed

lemma upsample_const:
  assumes "\<forall>p. red (u_rawMask U p) = c" and "\<forall>p. red (u_mask U p) = e"
  shows "upsample U uv = (c, e)"
proof -
  have ne: "offsets \<noteq> []" by (simp add: offsets_def)
  from upsampleLoop_const[OF assms, where t = 0 and ds = offsets and uv = uv] ne obtain t' where
    "0 < t'" "upsampleLoop U uv offsets (0, 0, 0) = (c * t', e * t', t')" by auto
  then show ?thesis by (simp add: upsample_def)
qed


lemma glsl_clamp_unit: "0 \<le> glsl_clamp x 0 1 \<and> glsl_clamp x 0 1 \<le> 1"
  by (simp add: glsl_clamp_def)

lemma videoEdge_range: "0 \<le> videoEdge U uv \<and> videoEdge U uv \<le> 1"
  by (simp add: videoEdge_def Let_def glsl_clamp_unit)

lemma edgeSnap_eq:
  "edgeSnap m ve unc = m + ((if m < 1 / 2 then 0 else 1) - m) * (ve * unc * (85 / 100))"
proof -
  have g: "glsl_mix x y a = x + (y - x) * a" for x y a :: real
    by (simp add: glsl_mix_def algebra_simps)
  show ?thesis by (simp only: edgeSnap_def g glsl_step_def)
qed

lemma snap_weight_range:
  fixes ve unc :: real
  assumes "0 \<le> ve" "ve \<le> 1" "0 \<le> unc" "unc \<le> 1"
  shows "0 \<le> ve * unc * (85 / 100) \<and> ve * unc * (85 / 100) \<le> 85 / 100"
proof -
  have a: "0 \<le> ve * unc" using assms(1,3) by (rule mult_nonneg_nonneg)
  have "ve * unc \<le> 1 * 1" using assms by (intro mult_mono) simp_all
  then have b: "ve * unc \<le> 1" by simp
  from a b show ?thesis by (simp add: mult.commute)
qed

lemma snap_side:
  fixes m t :: real
  assumes "0 \<le> t" "t \<le> 85 / 100"
  shows "m + ((if m < 1 / 2 then 0 else 1) - m) * t < 1 / 2 \<longleftrightarrow> m < 1 / 2"
proof (cases "m < 1 / 2")
  case True
  have e: "m + (0 - m) * t = m * (1 - t)" by (simp add: algebra_simps)
  have "m * (1 - t) < 1 / 2"
  proof (cases "0 \<le> m")
    case True
    then have "m * (1 - t) \<le> m * 1" using assms by (intro mult_left_mono) simp_all
    with \<open>m < 1 / 2\<close> show ?thesis by simp
  next
    case False
    then have "m * (1 - t) \<le> 0" using assms by (simp add: mult_le_0_iff)
    then show ?thesis by simp
  qed
  with True e show ?thesis by simp
next
  case False
  have e: "m + (1 - m) * t = m * (1 - t) + t" by (simp add: algebra_simps)
  have "1 / 2 * (1 - t) \<le> m * (1 - t)" using False assms by (intro mult_right_mono) simp_all
  then have "1 / 2 - t / 2 \<le> m * (1 - t)" by (simp add: right_diff_distrib)
  with assms(1) have "1 / 2 \<le> m * (1 - t) + t" by linarith
  with False e show ?thesis by simp
qed

lemma snap_distance:
  fixes m t s :: real
  assumes "t \<le> 1"
  shows "\<bar>m + (s - m) * t - s\<bar> = (1 - t) * \<bar>m - s\<bar>"
proof -
  have "m + (s - m) * t - s = (1 - t) * (m - s)" by (simp add: algebra_simps)
  then show ?thesis using assms by (simp add: abs_mult)
qed

text \<open>
  Claim C8, as the code has it. For every output pixel in Composite mode, with raw-mask
  samples in [0,1]: the mask value \<open>m\<close> is moved towards \<open>snap\<close> (0 when \<open>m < 0.5\<close>, 1
  otherwise) by the fraction \<open>t = videoEdge * uncertainty * 0.85\<close>, which lies in
  [0, 0.85]; the value before the feather is \<open>m + (snap - m) * t\<close>, on the same side of 0.5
  as \<open>m\<close>, at \<open>(1 - t)\<close> times the former distance from \<open>snap\<close>. The feather and the
  mix of background and video follow.
\<close>

theorem edge_snap:
  assumes "u_mode U \<noteq> 0" and "\<forall>p. inUnit (red (u_rawMask U p))"
  shows "\<exists>mRaw mBlend m t snap.
           upsample U uv = (mRaw, mBlend)
         \<and> m = boundaryMix mRaw mBlend
         \<and> t = videoEdge U uv * (1 - \<bar>mRaw * 2 - 1\<bar>) * (85 / 100)
         \<and> snap = (if m < 1 / 2 then 0 else 1)
         \<and> 0 \<le> t \<and> t \<le> 85 / 100
         \<and> preFeather U uv = m + (snap - m) * t
         \<and> \<bar>preFeather U uv - snap\<bar> = (1 - t) * \<bar>m - snap\<bar>
         \<and> (preFeather U uv < 1 / 2 \<longleftrightarrow> m < 1 / 2)
         \<and> frag_main U uv
             = mix4 (u_bg U uv) (u_video U uv)
                 (glsl_smoothstep (33 / 100) (67 / 100) (preFeather U uv))"
proof -
  obtain mRaw mBlend where up: "upsample U uv = (mRaw, mBlend)"
    by (cases "upsample U uv") auto
  define m where "m = boundaryMix mRaw mBlend"
  define unc where "unc = 1 - \<bar>mRaw * 2 - 1\<bar>"
  define t where "t = videoEdge U uv * unc * (85 / 100)"
  define snap :: real where "snap = (if m < 1 / 2 then 0 else 1)"
  from upsample_raw_range[OF assms(2), of uv] up have "inUnit mRaw" by simp
  then have unc: "0 \<le> unc" "unc \<le> 1" by (auto simp: unc_def inUnit_def abs_if)
  from snap_weight_range[OF _ _ unc, of "videoEdge U uv"] videoEdge_range[of U uv]
  have t: "0 \<le> t" "t \<le> 85 / 100" by (simp_all add: t_def)
  have pf: "preFeather U uv = m + (snap - m) * t"
    by (simp add: preFeather_def up edgeSnap_eq m_def t_def unc_def snap_def)
  have d: "\<bar>preFeather U uv - snap\<bar> = (1 - t) * \<bar>m - snap\<bar>"
    unfolding pf using t by (intro snap_distance) simp
  have s: "preFeather U uv < 1 / 2 \<longleftrightarrow> m < 1 / 2"
    unfolding pf snap_def using t by (rule snap_side)
  have f: "frag_main U uv
             = mix4 (u_bg U uv) (u_video U uv)
                 (glsl_smoothstep (33 / 100) (67 / 100) (preFeather U uv))"
    using assms(1) by (simp add: frag_main_def Let_def)
  from up t pf d s f show ?thesis
    unfolding m_def t_def unc_def snap_def by blast
qed

lemma snapUniforms_upsample: "upsample snapUniforms uv = (1 / 2, 1 / 2)"
  by (rule upsample_const) (simp_all add: snapUniforms_def)

lemma snapUniforms_videoEdge: "videoEdge snapUniforms (1 / 2, 1 / 2) = 1"
  by (simp add: videoEdge_def snapUniforms_def halfWhite_def glsl_length_def glsl_clamp_def)

text \<open>
  A frame that is black on the left half and white on the right, masks at 0.5 everywhere,
  the pixel at the centre: the gradient term is at its maximum 1 and the uncertainty at its
  maximum 1, and the mask value before the feather is 0.925, neither 0 nor 1.
\<close>

theorem edge_snap_counterexample:
  "u_mode snapUniforms = 1
   \<and> videoEdge snapUniforms (1 / 2, 1 / 2) = 1
   \<and> 1 - \<bar>fst (upsample snapUniforms (1 / 2, 1 / 2)) * 2 - 1\<bar> = 1
   \<and> preFeather snapUniforms (1 / 2, 1 / 2) = 37 / 40
   \<and> preFeather snapUniforms (1 / 2, 1 / 2) \<noteq> 0
   \<and> preFeather snapUniforms (1 / 2, 1 / 2) \<noteq> 1"
proof -
  have m: "u_mode snapUniforms = 1" by (simp add: snapUniforms_def)
  have p: "preFeather snapUniforms (1 / 2, 1 / 2) = 37 / 40"
    by (simp add: preFeather_def snapUniforms_upsample snapUniforms_videoEdge edgeSnap_def
          boundaryMix_def glsl_mix_def glsl_step_def glsl_clamp_def)
  from m p show ?thesis by (simp add: snapUniforms_upsample snapUniforms_videoEdge)
qed

theorem edge_snap_witness:
  "u_mode snapUniforms \<noteq> 0
   \<and> (\<forall>p. inUnit (red (u_rawMask snapUniforms p)))
   \<and> (\<exists>t. 0 \<le> t \<and> t \<le> 85 / 100
          \<and> preFeather snapUniforms (1 / 2, 1 / 2) = 1 / 2 + (1 - 1 / 2) * t)"
proof -
  have h1: "u_mode snapUniforms \<noteq> 0" by (simp add: snapUniforms_def)
  have h2: "\<forall>p. inUnit (red (u_rawMask snapUniforms p))"
    by (simp add: snapUniforms_def inUnit_def)
  have b: "boundaryMix (1 / 2) (1 / 2) = 1 / 2"
    by (simp add: boundaryMix_def glsl_mix_def glsl_clamp_def)
  from edge_snap[OF h1 h2, of "(1 / 2, 1 / 2)"] obtain mRaw mBlend m t snap where
    u: "upsample snapUniforms (1 / 2, 1 / 2) = (mRaw, mBlend)"
    and m: "m = boundaryMix mRaw mBlend"
    and s: "snap = (if m < 1 / 2 then 0 else (1::real))"
    and t: "0 \<le> t" "t \<le> 85 / 100"
    and p: "preFeather snapUniforms (1 / 2, 1 / 2) = m + (snap - m) * t"
    by blast
  from u have "mRaw = 1 / 2" "mBlend = 1 / 2" by (simp_all add: snapUniforms_upsample)
  with m b have "m = 1 / 2" by simp
  with s p have "preFeather snapUniforms (1 / 2, 1 / 2) = 1 / 2 + (1 - 1 / 2) * t" by simp
  with t h1 h2 show ?thesis by blast
qed


section \<open>The frame pump: what each part of an iteration touches\<close>

lemma uploadVideo_state:
  "fst (uploadVideo v s) =
     s\<lparr>texelSize := (if lastDims s \<noteq> frameDims v
                      then (1 / real (fst (frameDims v)), 1 / real (snd (frameDims v)))
                      else texelSize s),
       videoTex := Some (pixels v), lastDims := frameDims v\<rparr>"
  by (simp add: uploadVideo_def Let_def)

lemma uploadVideo_events:
  "snd (uploadVideo v s) =
     (if lastDims s \<noteq> frameDims v
      then [AllocVideoTex (fst (frameDims v)) (snd (frameDims v)), UploadVideoFrame]
      else [UploadVideoFrame])"
  by (simp add: uploadVideo_def Let_def)

lemma uploadBackground_keeps:
  "hasMask (fst (uploadBackground t v s)) = hasMask s"
  "blendMask (fst (uploadBackground t v s)) = blendMask s"
  "maskTex (fst (uploadBackground t v s)) = maskTex s"
  "rawMaskTex (fst (uploadBackground t v s)) = rawMaskTex s"
  "maskAlloc (fst (uploadBackground t v s)) = maskAlloc s"
  "lastDims (fst (uploadBackground t v s)) = lastDims s"
  "videoTex (fst (uploadBackground t v s)) = videoTex s"
  "frameCount (fst (uploadBackground t v s)) = frameCount s"
  "avgFrameTime (fst (uploadBackground t v s)) = avgFrameTime s"
  "skipInterval (fst (uploadBackground t v s)) = skipInterval s"
  by (simp_all add: uploadBackground_def split: option.splits prod.splits bgType.splits)

lemma uploadBackground_events:
  "snd (uploadBackground t v s) = [] \<or> snd (uploadBackground t v s) = [UploadBg]"
  by (simp add: uploadBackground_def split: option.splits prod.splits bgType.splits)

lemma segmentStep_fail:
  assumes "segOutcome t = Threw \<or> segOutcome t = NoMasks"
  shows "segmentStep t s =
           (s\<lparr>avgFrameTime := fst (loadController (avgFrameTime s, skipInterval s) (segTime t)),
              skipInterval := snd (loadController (avgFrameTime s, skipInterval s) (segTime t))\<rparr>,
            [Segment])"
  using assms by (auto simp: segmentStep_def Let_def)

lemma segmentStep_mask:
  assumes "segOutcome t = Masks m"
  shows "fst (segmentStep t s) =
           s\<lparr>rawMaskTex := Some m,
              blendMask := Some (temporalBlend (blendMask s) m),
              maskTex := Some (temporalBlend (blendMask s) m),
              maskAlloc := (SEG_WIDTH, SEG_HEIGHT), hasMask := True,
              avgFrameTime := fst (loadController (avgFrameTime s, skipInterval s) (segTime t)),
              skipInterval := snd (loadController (avgFrameTime s, skipInterval s) (segTime t))\<rparr>"
    and "snd (segmentStep t s) =
           [Segment,
            if maskAlloc s \<noteq> (SEG_WIDTH, SEG_HEIGHT) then AllocRawMaskTex else UpdateRawMaskTex,
            if maskAlloc s \<noteq> (SEG_WIDTH, SEG_HEIGHT) then AllocMaskTex else UpdateMaskTex]"
  using assms by (simp_all add: segmentStep_def maskUpdate_def Let_def)

lemma segmentStep_Segment: "snd (segmentStep t s) = Segment # tl (snd (segmentStep t s))"
  by (simp add: segmentStep_def Let_def)

lemma draw_idle: "\<not> playing t \<Longrightarrow> draw t s = (s, [])"
  by (auto simp: draw_def playing_def split: option.splits)

lemma draw_playing:
  assumes "videoEl t = Some v" and "\<not> paused v" and "\<not> ended v"
  shows "draw t s =
     (let u = uploadVideo v s
      in if curBg t = ''none'' \<or> \<not> curReady t \<or> \<not> segmenter t
         then (fst u, snd u @ [Draw 0])
         else
           let s1 = (fst u)\<lparr>frameCount := frameCount (fst u) + 1\<rparr>;
               g = (if shouldSegment s1 then segmentStep t s1 else (s1, []))
           in if \<not> hasMask (fst g)
              then (fst g, snd u @ snd g @ [Draw 0])
              else
                let b = uploadBackground t v (fst g)
                in (fst b, snd u @ snd g @ snd b @ [Draw 1]))"
  using assms by (simp add: draw_def)

lemma isDraw_simps [simp]:
  "isDraw (Draw m)" "\<not> isDraw UploadVideoFrame" "\<not> isDraw (AllocVideoTex w h)"
  "\<not> isDraw Segment" "\<not> isDraw AllocRawMaskTex" "\<not> isDraw UpdateRawMaskTex"
  "\<not> isDraw AllocMaskTex" "\<not> isDraw UpdateMaskTex" "\<not> isDraw UploadBg"
  by (simp_all add: isDraw_def)

lemma isAlloc_simps [simp]:
  "\<not> isAlloc (Draw m)" "\<not> isAlloc UploadVideoFrame" "isAlloc (AllocVideoTex w h)"
  "\<not> isAlloc Segment" "\<not> isAlloc AllocRawMaskTex" "\<not> isAlloc UpdateRawMaskTex"
  "\<not> isAlloc AllocMaskTex" "\<not> isAlloc UpdateMaskTex" "\<not> isAlloc UploadBg"
  by (simp_all add: isAlloc_def)

lemma filter_isDraw_uploadVideo [simp]: "filter isDraw (snd (uploadVideo v s)) = []"
  by (simp add: uploadVideo_events)

lemma filter_isDraw_uploadBackground [simp]: "filter isDraw (snd (uploadBackground t v s)) = []"
  using uploadBackground_events[of t v s] by auto

lemma filter_isDraw_segmentStep [simp]: "filter isDraw (snd (segmentStep t s)) = []"
  by (cases "segOutcome t") (simp_all add: segmentStep_def maskUpdate_def Let_def)

lemma Segment_notin_uploadVideo [simp]: "Segment \<notin> set (snd (uploadVideo v s))"
  by (simp add: uploadVideo_events)

lemma Segment_notin_uploadBackground [simp]: "Segment \<notin> set (snd (uploadBackground t v s))"
  using uploadBackground_events[of t v s] by auto

lemma Segment_in_segmentStep [simp]: "Segment \<in> set (snd (segmentStep t s))"
  by (simp add: segmentStep_def Let_def)


lemma uploadBackground_mem: "e \<in> set (snd (uploadBackground t v s)) \<Longrightarrow> e = UploadBg"
  using uploadBackground_events[of t v s] by auto


section \<open>Failed segmentation and the skip gate\<close>

lemma draw_fail_state:
  assumes "segOutcome t = Threw \<or> segOutcome t = NoMasks"
  shows "blendMask (fst (draw t s)) = blendMask s
       \<and> maskTex (fst (draw t s)) = maskTex s
       \<and> rawMaskTex (fst (draw t s)) = rawMaskTex s
       \<and> hasMask (fst (draw t s)) = hasMask s
       \<and> maskAlloc (fst (draw t s)) = maskAlloc s"
proof (cases "playing t")
  case False
  then show ?thesis by (simp add: draw_idle)
next
  case True
  then obtain v where v: "videoEl t = Some v" "\<not> paused v" "\<not> ended v"
    by (auto simp: playing_def split: option.splits)
  show ?thesis
    by (simp add: draw_playing[OF v] Let_def uploadVideo_state segmentStep_fail[OF assms]
          uploadBackground_keeps)
qed

lemma draw_fail_events:
  assumes "segOutcome t = Threw \<or> segOutcome t = NoMasks" and "playing t"
  shows "filter isDraw (snd (draw t s))
           = [Draw (if curBg t \<noteq> ''none'' \<and> curReady t \<and> segmenter t \<and> hasMask s
                    then 1 else 0)]"
proof -
  from assms(2) obtain v where v: "videoEl t = Some v" "\<not> paused v" "\<not> ended v"
    by (auto simp: playing_def split: option.splits)
  show ?thesis
    by (simp add: draw_playing[OF v] Let_def uploadVideo_state segmentStep_fail[OF assms(1)])
qed

lemma draw_fail_no_upload:
  assumes "segOutcome t = Threw \<or> segOutcome t = NoMasks"
  shows "set (snd (draw t s))
           \<inter> {AllocRawMaskTex, UpdateRawMaskTex, AllocMaskTex, UpdateMaskTex} = {}"
proof (cases "playing t")
  case False
  then show ?thesis by (simp add: draw_idle)
next
  case True
  then obtain v where v: "videoEl t = Some v" "\<not> paused v" "\<not> ended v"
    by (auto simp: playing_def split: option.splits)
  show ?thesis
    by (auto simp add: draw_playing[OF v] Let_def uploadVideo_events
          segmentStep_fail[OF assms] split: if_splits dest: uploadBackground_mem)
qed

text \<open>
  Claim C6. When the segmenter call of an iteration throws or returns no confidence mask,
  the iteration still returns: the blend buffer, both mask textures, the has-mask flag and the
  mask allocation record are those of the previous iteration, no mask texture is written,
  and an iteration that has a playing video draws once, in Composite mode exactly when a
  background is active, the segmenter is ready and a mask had been acquired before, in
  Passthrough mode otherwise.
\<close>

theorem segmentation_failure:
  assumes "segOutcome t = Threw \<or> segOutcome t = NoMasks" and "draw t s = (s', evs)"
  shows "blendMask s' = blendMask s
       \<and> maskTex s' = maskTex s
       \<and> rawMaskTex s' = rawMaskTex s
       \<and> hasMask s' = hasMask s
       \<and> maskAlloc s' = maskAlloc s
       \<and> set evs \<inter> {AllocRawMaskTex, UpdateRawMaskTex, AllocMaskTex, UpdateMaskTex} = {}
       \<and> (playing t \<longrightarrow>
            filter isDraw evs
              = [Draw (if curBg t \<noteq> ''none'' \<and> curReady t \<and> segmenter t \<and> hasMask s
                       then 1 else 0)])"
  using draw_fail_state[OF assms(1), of s] draw_fail_events[OF assms(1), of s]
    draw_fail_no_upload[OF assms(1), of s] assms(2)
  by simp


lemma segmentStep_load:
  "(avgFrameTime (fst (segmentStep t s)), skipInterval (fst (segmentStep t s)))
     = loadController (avgFrameTime s, skipInterval s) (segTime t)"
  by (cases "segOutcome t") (simp_all add: segmentStep_def maskUpdate_def Let_def)

lemma draw_loadInv:
  assumes "loadInv (avgFrameTime s, skipInterval s)"
  shows "loadInv (avgFrameTime (fst (draw t s)), skipInterval (fst (draw t s)))"
proof (cases "playing t")
  case False
  with assms show ?thesis by (simp add: draw_idle)
next
  case True
  then obtain v where v: "videoEl t = Some v" "\<not> paused v" "\<not> ended v"
    by (auto simp: playing_def split: option.splits)
  let ?s1 = "(fst (uploadVideo v s))\<lparr>frameCount := frameCount (fst (uploadVideo v s)) + 1\<rparr>"
  have l: "loadInv (avgFrameTime (fst (segmentStep t ?s1)), skipInterval (fst (segmentStep t ?s1)))"
    unfolding segmentStep_load using assms
    by (intro loadInv_step) (simp add: uploadVideo_state)
  show ?thesis
    using assms l
    by (simp add: draw_playing[OF v] Let_def uploadVideo_state uploadBackground_keeps)
qed

lemma run_loadInv:
  "loadInv (avgFrameTime s, skipInterval s) \<Longrightarrow>
   loadInv (avgFrameTime (fst (run ts s)), skipInterval (fst (run ts s)))"
proof (induction ts arbitrary: s)
  case Nil
  then show ?case by simp
next
  case (Cons t ts)
  from Cons.IH[OF draw_loadInv[OF Cons.prems, of t]] show ?case by (simp add: Let_def)
qed

lemma run_init_skip: "1 \<le> skipInterval (fst (run ts initState))"
proof -
  have "loadInv (avgFrameTime initState, skipInterval initState)"
    by (simp add: initState_def loadInv_def)
  from run_loadInv[OF this, of ts] show ?thesis by (simp add: loadInv_def)
qed

text \<open>
  Claim C5. In a state reached from the initial one (so the skip interval is at least 1), for
  an iteration with a playing video, an active background and a ready segmenter: the frame
  counter is incremented, and the segmenter is called if and only if the incremented counter
  is a multiple of the skip interval. An iteration that skips the call leaves the blend
  buffer, both mask textures and the has-mask flag as they were, writes no mask texture, and
  draws once: in Composite mode from those textures when a mask has been acquired, in
  Passthrough mode when none has.
\<close>

theorem skip_gate:
  assumes "run ts initState = (s, es)"
    and "videoEl t = Some v" and "\<not> paused v" and "\<not> ended v"
    and "curBg t \<noteq> ''none''" and "curReady t" and "segmenter t"
    and "draw t s = (s', evs)"
  shows "1 \<le> skipInterval s
       \<and> frameCount s' = frameCount s + 1
       \<and> (Segment \<in> set evs \<longleftrightarrow> (frameCount s + 1) mod skipInterval s = 0)
       \<and> (Segment \<notin> set evs \<longrightarrow>
            blendMask s' = blendMask s \<and> rawMaskTex s' = rawMaskTex s
          \<and> maskTex s' = maskTex s \<and> hasMask s' = hasMask s
          \<and> set evs \<inter> {AllocRawMaskTex, UpdateRawMaskTex, AllocMaskTex, UpdateMaskTex} = {}
          \<and> filter isDraw evs = [Draw (if hasMask s then 1 else 0)])"
proof -
  have v: "videoEl t = Some v" "\<not> paused v" "\<not> ended v" by fact+
  from run_init_skip[of ts] assms(1) have k: "1 \<le> skipInterval s" by simp
  let ?s1 = "(fst (uploadVideo v s))\<lparr>frameCount := frameCount (fst (uploadVideo v s)) + 1\<rparr>"
  have sh: "shouldSegment ?s1 \<longleftrightarrow> (frameCount s + 1) mod skipInterval s = 0"
    using k by (simp add: shouldSegment_def uploadVideo_state)
  have fc: "frameCount (fst (segmentStep t ?s1)) = frameCount s + 1"
    by (cases "segOutcome t") (simp_all add: segmentStep_def maskUpdate_def Let_def uploadVideo_state)
  show ?thesis
  proof (cases "shouldSegment ?s1")
    case True
    with assms(5-8) k sh fc show ?thesis
      by (auto simp add: draw_playing[OF v] Let_def uploadBackground_keeps split: if_splits)
  next
    case False
    with assms(5-8) k sh show ?thesis
      by (auto simp add: draw_playing[OF v] Let_def uploadBackground_keeps uploadVideo_state
            uploadVideo_events split: if_splits dest: uploadBackground_mem)
  qed
qed


section \<open>A sample session\<close>

lemmas sample_eval =
  draw_def sampleTick_def sampleVideo_def initState_def uploadVideo_def frameDims_def
  shouldSegment_def segmentStep_def maskUpdate_def loadController_def Let_def
  uploadBackground_def BACKGROUNDS_def SEG_WIDTH_def SEG_HEIGHT_def playing_def

lemma sample_first:
  "draw (sampleTick (640, 480) ''library'' (Masks [1, 0]) 5) initState =
     (\<lparr>lastDims = (640, 480), lastBgKey = None, frameCount = 1,
       maskAlloc = (256, 144), hasMask = True, blendMask = Some (Cells [1, 0]),
       avgFrameTime = 149 / 10, skipInterval = 2, texelSize = (1 / 640, 1 / 480),
       videoTex = Some halfWhite, rawMaskTex = Some [1, 0], maskTex = Some (Cells [1, 0]),
       bgTex = BgPlaceholder\<rparr>,
      [AllocVideoTex 640 480, UploadVideoFrame, Segment, AllocRawMaskTex, AllocMaskTex, Draw 1])"
  by (simp add: sample_eval)

theorem segmentation_failure_witness:
  "(segOutcome (sampleTick (640, 480) ''library'' Threw 5) = Threw
      \<or> segOutcome (sampleTick (640, 480) ''library'' Threw 5) = NoMasks)
   \<and> Segment \<in> set (snd (draw (sampleTick (640, 480) ''library'' Threw 5)
         (fst (draw (sampleTick (640, 480) ''library'' (Masks [1, 0]) 5) initState))))
   \<and> blendMask (fst (draw (sampleTick (640, 480) ''library'' Threw 5)
         (fst (draw (sampleTick (640, 480) ''library'' (Masks [1, 0]) 5) initState))))
       = Some (Cells [1, 0])
   \<and> filter isDraw (snd (draw (sampleTick (640, 480) ''library'' Threw 5)
         (fst (draw (sampleTick (640, 480) ''library'' (Masks [1, 0]) 5) initState))))
       = [Draw 1]"
proof -
  let ?T2 = "sampleTick (640, 480) ''library'' Threw 5"
  let ?s1 = "fst (draw (sampleTick (640, 480) ''library'' (Masks [1, 0]) 5) initState)"
  have h1: "segOutcome ?T2 = Threw \<or> segOutcome ?T2 = NoMasks" by (simp add: sampleTick_def)
  have h2: "draw ?T2 ?s1 = (fst (draw ?T2 ?s1), snd (draw ?T2 ?s1))" by simp
  have p: "playing ?T2" by (simp add: playing_def sampleTick_def sampleVideo_def)
  have c: "curBg ?T2 \<noteq> ''none'' \<and> curReady ?T2 \<and> segmenter ?T2" by (simp add: sampleTick_def)
  have g: "Segment \<in> set (snd (draw ?T2 ?s1))"
    unfolding sample_first by (simp add: sample_eval)
  from segmentation_failure[OF h1 h2] h1 p c g show ?thesis
    by (simp add: sample_first)
qed


section \<open>The history of a session\<close>

lemma acquired_Nil [simp]: "\<not> acquired t []"
  by (simp add: acquired_def)

lemma draw_hasMask: "hasMask (fst (draw t s)) = (hasMask s \<or> acquired t (snd (draw t s)))"
proof (cases "playing t")
  case False
  then show ?thesis by (simp add: draw_idle)
next
  case True
  then obtain v where v: "videoEl t = Some v" "\<not> paused v" "\<not> ended v"
    by (auto simp: playing_def split: option.splits)
  show ?thesis
    by (cases "segOutcome t")
       (auto simp add: draw_playing[OF v] Let_def uploadVideo_state uploadBackground_keeps
          acquired_def segmentStep_fail segmentStep_mask uploadVideo_events
          dest: uploadBackground_mem)
qed

lemma draw_mask_inv:
  assumes "hasMask s \<longleftrightarrow> blendMask s \<noteq> None"
  shows "hasMask (fst (draw t s)) \<longleftrightarrow> blendMask (fst (draw t s)) \<noteq> None"
proof (cases "playing t")
  case False
  with assms show ?thesis by (simp add: draw_idle)
next
  case True
  then obtain v where v: "videoEl t = Some v" "\<not> paused v" "\<not> ended v"
    by (auto simp: playing_def split: option.splits)
  show ?thesis
    using assms
    by (cases "segOutcome t")
       (auto simp add: draw_playing[OF v] Let_def uploadVideo_state uploadBackground_keeps
          segmentStep_fail segmentStep_mask)
qed

lemma draw_mode:
  assumes "playing t"
  shows "filter isDraw (snd (draw t s))
           = [Draw (if curBg t \<noteq> ''none'' \<and> curReady t \<and> segmenter t
                       \<and> hasMask (fst (draw t s)) then 1 else 0)]"
proof -
  from assms obtain v where v: "videoEl t = Some v" "\<not> paused v" "\<not> ended v"
    by (auto simp: playing_def split: option.splits)
  show ?thesis
    by (auto simp add: draw_playing[OF v] Let_def uploadBackground_keeps uploadVideo_state)
qed

lemma draw_Draw1: "Draw 1 \<in> set (snd (draw t s)) \<Longrightarrow> hasMask (fst (draw t s))"
proof (cases "playing t")
  case False
  assume "Draw 1 \<in> set (snd (draw t s))"
  with False show ?thesis by (simp add: draw_idle)
next
  case True
  assume "Draw 1 \<in> set (snd (draw t s))"
  then have "Draw 1 \<in> set (filter isDraw (snd (draw t s)))" by simp
  then show ?thesis unfolding draw_mode[OF True] by (simp split: if_splits)
qed

lemma draw_videoTex:
  assumes "videoEl t = Some v" and "\<not> paused v" and "\<not> ended v"
  shows "videoTex (fst (draw t s)) = Some (pixels v)"
  by (cases "segOutcome t")
     (simp_all add: draw_playing[OF assms] Let_def uploadVideo_state uploadBackground_keeps
        segmentStep_fail segmentStep_mask)

lemma length_run: "length (snd (run ts s)) = length ts"
  by (induction ts arbitrary: s) (simp_all add: Let_def)

lemma run_history:
  "hasMask (fst (run ts s))
     = (hasMask s \<or> (\<exists>i<length ts. acquired (ts ! i) (snd (run ts s) ! i)))"
proof (induction ts arbitrary: s)
  case Nil
  show ?case by simp
next
  case (Cons t ts)
  have e: "(\<exists>i<Suc n. P i) \<longleftrightarrow> P 0 \<or> (\<exists>i<n. P (Suc i))" for P and n :: nat
    by (metis less_Suc_eq_0_disj)
  show ?case
    by (simp add: Let_def Cons.IH draw_hasMask e del: ex_simps)
qed

lemma run_mask_inv:
  "(hasMask s \<longleftrightarrow> blendMask s \<noteq> None) \<Longrightarrow>
   (hasMask (fst (run ts s)) \<longleftrightarrow> blendMask (fst (run ts s)) \<noteq> None)"
proof (induction ts arbitrary: s)
  case Nil
  then show ?case by simp
next
  case (Cons t ts)
  from Cons.IH[OF draw_mask_inv[OF Cons.prems, of t]] show ?case by (simp add: Let_def)
qed

lemma run_no_composite:
  "\<not> hasMask (fst (run ts s)) \<Longrightarrow> \<forall>i<length ts. Draw 1 \<notin> set (snd (run ts s) ! i)"
proof (induction ts arbitrary: s)
  case Nil
  show ?case by simp
next
  case (Cons t ts)
  from Cons.prems have a: "\<not> hasMask (fst (run ts (fst (draw t s))))" by (simp add: Let_def)
  then have "\<not> hasMask (fst (draw t s))" by (simp add: run_history)
  then have d: "Draw 1 \<notin> set (snd (draw t s))" using draw_Draw1 by blast
  show ?case
  proof (intro allI impI)
    fix i assume "i < length (t # ts)"
    with d Cons.IH[OF a] show "Draw 1 \<notin> set (snd (run (t # ts) s) ! i)"
      by (cases i) (simp_all add: Let_def)
  qed
qed


section \<open>Passthrough and the first mask\<close>

lemma frag_main_passthrough: "u_mode U = 0 \<Longrightarrow> frag_main U uv = u_video U uv"
  by (simp add: frag_main_def)

lemma initState_fresh: "\<not> hasMask initState" "blendMask initState = None"
  by (simp_all add: initState_def)

text \<open>
  Claim C2. In a session run from the initial state, an iteration with a playing video in
  which the background selection is \<^verbatim>\<open>"none"\<close>, or the segmenter is not ready, or no iteration
  so far (this one included) has acquired a mask, draws exactly once, in Passthrough mode
  (\<^verbatim>\<open>u_mode\<close> 0); the video texture holds the current frame, and with \<^verbatim>\<open>u_mode\<close> 0 the shader
  returns the video sample at every pixel, whatever the mask and background textures hold.
\<close>

theorem passthrough:
  assumes "run ts initState = (s, es)"
    and "videoEl t = Some v" and "\<not> paused v" and "\<not> ended v"
    and "draw t s = (s', evs)"
    and "curBg t = ''none'' \<or> \<not> curReady t \<or> \<not> segmenter t
         \<or> ((\<forall>i<length ts. \<not> acquired (ts ! i) (es ! i)) \<and> \<not> acquired t evs)"
  shows "filter isDraw evs = [Draw 0]
       \<and> videoTex s' = Some (pixels v)
       \<and> (\<forall>U uv. u_mode U = 0 \<and> u_video U = pixels v \<longrightarrow> frag_main U uv = pixels v uv)"
proof -
  have p: "playing t" using assms(2-4) by (simp add: playing_def)
  have "\<not> (curBg t \<noteq> ''none'' \<and> curReady t \<and> segmenter t \<and> hasMask s')"
  proof
    assume a: "curBg t \<noteq> ''none'' \<and> curReady t \<and> segmenter t \<and> hasMask s'"
    with assms(6) have n: "\<forall>i<length ts. \<not> acquired (ts ! i) (es ! i)" "\<not> acquired t evs"
      by auto
    from run_history[of ts initState] assms(1) n(1) have "\<not> hasMask s"
      by (simp add: initState_fresh)
    with draw_hasMask[of t s] assms(5) n(2) have "\<not> hasMask s'" by simp
    with a show False by simp
  qed
  with draw_mode[OF p, of s] assms(5) have d: "filter isDraw evs = [Draw 0]" by simp
  from draw_videoTex[OF assms(2-4), of s] assms(5) have x: "videoTex s' = Some (pixels v)"
    by simp
  have f: "\<forall>U uv. u_mode U = 0 \<and> u_video U = pixels v \<longrightarrow> frag_main U uv = pixels v uv"
    by (simp add: frag_main_passthrough)
  from d x f show ?thesis by blast
qed

lemma temporalBlend_copy:
  "(case prev of None \<Rightarrow> True | Some b \<Rightarrow> buflen b \<noteq> length raw) \<Longrightarrow>
   temporalBlend prev raw = Cells raw"
  by (cases prev; cases "the prev") auto

lemma acquired_draw:
  assumes "acquired t (snd (draw t s))" and "segOutcome t = Masks m"
  shows "blendMask (fst (draw t s)) = Some (temporalBlend (blendMask s) m)
       \<and> maskTex (fst (draw t s)) = Some (temporalBlend (blendMask s) m)
       \<and> rawMaskTex (fst (draw t s)) = Some m
       \<and> filter isDraw (snd (draw t s)) = [Draw 1]"
proof (cases "playing t")
  case False
  with assms(1) show ?thesis by (simp add: draw_idle)
next
  case True
  then obtain v where v: "videoEl t = Some v" "\<not> paused v" "\<not> ended v"
    by (auto simp: playing_def split: option.splits)
  from assms(1) have "Segment \<in> set (snd (draw t s))" by (simp add: acquired_def)
  then show ?thesis
    by (auto simp add: draw_playing[OF v] Let_def uploadVideo_state uploadBackground_keeps
          segmentStep_mask[OF assms(2)] uploadVideo_events
          split: if_splits dest: uploadBackground_mem)
qed

text \<open>
  Claim C3. Without a previous blend buffer, or with one of another length, the blender
  returns a copy of the raw mask. In a session run from the initial state, the first
  iteration that acquires a mask is the first that draws in Composite mode: no earlier
  iteration does, this one does, and its blend buffer and both mask textures hold that raw
  mask.
\<close>

theorem first_mask:
  assumes "run ts initState = (s, es)"
    and "\<forall>i<length ts. \<not> acquired (ts ! i) (es ! i)"
    and "draw t s = (s', evs)"
    and "acquired t evs" and "segOutcome t = Masks m"
  shows "(\<forall>i<length ts. Draw 1 \<notin> set (es ! i))
       \<and> filter isDraw evs = [Draw 1]
       \<and> blendMask s' = Some (Cells m)
       \<and> maskTex s' = Some (Cells m)
       \<and> rawMaskTex s' = Some m
       \<and> (\<forall>prev raw. (case prev of None \<Rightarrow> True | Some b \<Rightarrow> buflen b \<noteq> length raw)
             \<longrightarrow> temporalBlend prev raw = Cells raw)"
proof -
  from run_history[of ts initState] assms(1,2) have n: "\<not> hasMask s"
    by (simp add: initState_fresh)
  from run_no_composite[of ts initState] assms(1) n
  have a: "\<forall>i<length ts. Draw 1 \<notin> set (es ! i)" by simp
  from run_mask_inv[of initState ts] assms(1) n have b: "blendMask s = None"
    by (simp add: initState_fresh)
  from acquired_draw[of t s m] assms(3-5) b
  have c: "filter isDraw evs = [Draw 1]" "blendMask s' = Some (Cells m)"
    "maskTex s' = Some (Cells m)" "rawMaskTex s' = Some m" by simp_all
  have d: "\<forall>prev raw. (case prev of None \<Rightarrow> True | Some b \<Rightarrow> buflen b \<noteq> length raw)
             \<longrightarrow> temporalBlend prev raw = Cells raw"
    using temporalBlend_copy by blast
  from a c d show ?thesis by blast
qed


section \<open>Video texture storage\<close>

lemma filter_isAlloc_uploadBackground [simp]: "filter isAlloc (snd (uploadBackground t v s)) = []"
  using uploadBackground_events[of t v s] by auto

lemma filter_isAlloc_segmentStep [simp]: "filter isAlloc (snd (segmentStep t s)) = []"
  by (cases "segOutcome t") (simp_all add: segmentStep_def maskUpdate_def Let_def)

lemma filter_upload_uploadBackground [simp]:
  "filter (\<lambda>e. e = UploadVideoFrame) (snd (uploadBackground t v s)) = []"
  using uploadBackground_events[of t v s] by auto

lemma filter_upload_segmentStep [simp]:
  "filter (\<lambda>e. e = UploadVideoFrame) (snd (segmentStep t s)) = []"
  by (cases "segOutcome t") (simp_all add: segmentStep_def maskUpdate_def Let_def)

lemma segmentStep_lastDims [simp]: "lastDims (fst (segmentStep t s)) = lastDims s"
  by (cases "segOutcome t") (simp_all add: segmentStep_def maskUpdate_def Let_def)

lemma draw_video_step:
  assumes "videoEl t = Some v" and "\<not> paused v" and "\<not> ended v"
  shows "filter isAlloc (snd (draw t s))
           = (if lastDims s \<noteq> frameDims v
              then [AllocVideoTex (fst (frameDims v)) (snd (frameDims v))] else [])"
    and "lastDims (fst (draw t s)) = frameDims v"
    and "filter (\<lambda>e. e = UploadVideoFrame) (snd (draw t s)) = [UploadVideoFrame]"
  by (simp_all add: draw_playing[OF assms] Let_def uploadVideo_state uploadVideo_events
        uploadBackground_keeps)

lemma run_append:
  "run (ts1 @ ts2) s
     = (fst (run ts2 (fst (run ts1 s))), snd (run ts1 s) @ snd (run ts2 (fst (run ts1 s))))"
  by (induction ts1 arbitrary: s) (simp_all add: Let_def)

lemma run_steady:
  assumes "list_all (\<lambda>t. showsDims t d) ts" and "lastDims s = d"
  shows "filter isAlloc (concat (snd (run ts s))) = []
       \<and> lastDims (fst (run ts s)) = d
       \<and> (\<forall>i<length ts. filter (\<lambda>e. e = UploadVideoFrame) (snd (run ts s) ! i)
                           = [UploadVideoFrame])"
  using assms
proof (induction ts arbitrary: s)
  case Nil
  then show ?case by simp
next
  case (Cons t ts)
  from Cons.prems(1) obtain v where v: "videoEl t = Some v" "\<not> paused v" "\<not> ended v"
    and d: "frameDims v = d"
    by (auto simp: showsDims_def split: option.splits)
  from Cons.prems(1) have r: "list_all (\<lambda>t. showsDims t d) ts" by simp
  note st = draw_video_step[OF v, of s]
  from st(2) d have l: "lastDims (fst (draw t s)) = d" by simp
  note ih = Cons.IH[OF r l]
  have u: "\<forall>i<length (t # ts). filter (\<lambda>e. e = UploadVideoFrame) (snd (run (t # ts) s) ! i)
                           = [UploadVideoFrame]"
  proof (intro allI impI)
    fix i assume "i < length (t # ts)"
    with st(3) ih show "filter (\<lambda>e. e = UploadVideoFrame) (snd (run (t # ts) s) ! i)
                           = [UploadVideoFrame]"
      by (cases i) (simp_all add: Let_def)
  qed
  from st(1) d Cons.prems(2) ih u show ?case by (simp add: Let_def)
qed

text \<open>
  Claim C9. An iteration with a playing video reallocates the video texture storage if and
  only if the frame dimensions differ from those recorded at the last allocation, records
  the new dimensions, and uploads the frame with one sub-image update in every case. Over a
  run of frames of one size followed by frames of another size, from a state allocated at
  the first size, there is exactly one reallocation, in the first frame of the new size, and
  one sub-image upload in every iteration.
\<close>

theorem video_realloc:
  assumes "lastDims s = d1" and "d1 \<noteq> d2"
    and "list_all (\<lambda>t. showsDims t d1) ts1" and "list_all (\<lambda>t. showsDims t d2) ts2"
    and "ts2 \<noteq> []" and "run (ts1 @ ts2) s = (s', es)"
  shows "(\<forall>t0 s0 v0. videoEl t0 = Some v0 \<and> \<not> paused v0 \<and> \<not> ended v0 \<longrightarrow>
            filter isAlloc (snd (draw t0 s0))
              = (if lastDims s0 \<noteq> frameDims v0
                 then [AllocVideoTex (fst (frameDims v0)) (snd (frameDims v0))] else [])
          \<and> lastDims (fst (draw t0 s0)) = frameDims v0
          \<and> filter (\<lambda>e. e = UploadVideoFrame) (snd (draw t0 s0)) = [UploadVideoFrame])
       \<and> filter isAlloc (concat es) = [AllocVideoTex (fst d2) (snd d2)]
       \<and> filter isAlloc (es ! length ts1) = [AllocVideoTex (fst d2) (snd d2)]
       \<and> (\<forall>i<length es. filter (\<lambda>e. e = UploadVideoFrame) (es ! i) = [UploadVideoFrame])
       \<and> lastDims s' = d2"
proof -
  have a: "\<forall>t0 s0 v0. videoEl t0 = Some v0 \<and> \<not> paused v0 \<and> \<not> ended v0 \<longrightarrow>
            filter isAlloc (snd (draw t0 s0))
              = (if lastDims s0 \<noteq> frameDims v0
                 then [AllocVideoTex (fst (frameDims v0)) (snd (frameDims v0))] else [])
          \<and> lastDims (fst (draw t0 s0)) = frameDims v0
          \<and> filter (\<lambda>e. e = UploadVideoFrame) (snd (draw t0 s0)) = [UploadVideoFrame]"
    using draw_video_step by blast
  from assms(5) obtain t ts where ts2: "ts2 = t # ts" by (cases ts2) auto
  from assms(4) ts2 obtain v where v: "videoEl t = Some v" "\<not> paused v" "\<not> ended v"
    and d: "frameDims v = d2" and r: "list_all (\<lambda>t. showsDims t d2) ts"
    by (auto simp: showsDims_def split: option.splits)
  let ?sa = "fst (run ts1 s)"
  let ?sb = "fst (draw t ?sa)"
  note A = run_steady[OF assms(3,1)]
  from A have la: "lastDims ?sa = d1" by simp
  note st = draw_video_step[OF v, of ?sa]
  from st(2) d have lb: "lastDims ?sb = d2" by simp
  note B = run_steady[OF r lb]
  have es: "es = snd (run ts1 s) @ snd (draw t ?sa) # snd (run ts ?sb)"
    and s': "s' = fst (run ts ?sb)"
    using assms(6) by (simp_all add: run_append ts2 Let_def)
  have al: "filter isAlloc (snd (draw t ?sa)) = [AllocVideoTex (fst d2) (snd d2)]"
    using st(1) la d assms(2) by simp
  have b: "filter isAlloc (concat es) = [AllocVideoTex (fst d2) (snd d2)]"
    using A B al by (simp add: es)
  have c: "filter isAlloc (es ! length ts1) = [AllocVideoTex (fst d2) (snd d2)]"
    using al by (simp add: es nth_append length_run)
  have e: "\<forall>i<length es. filter (\<lambda>e. e = UploadVideoFrame) (es ! i) = [UploadVideoFrame]"
  proof (intro allI impI)
    fix i assume i: "i < length es"
    show "filter (\<lambda>e. e = UploadVideoFrame) (es ! i) = [UploadVideoFrame]"
    proof (cases "i < length ts1")
      case True
      with A show ?thesis by (simp add: es nth_append length_run)
    next
      case False
      then obtain j where j: "i = length ts1 + j" by (metis le_Suc_ex not_less)
      with i have jl: "j < Suc (length ts)" by (simp add: es length_run)
      show ?thesis
      proof (cases j)
        case 0
        with st(3) j show ?thesis by (simp add: es nth_append length_run)
      next
        case (Suc k)
        with jl B j show ?thesis by (simp add: es nth_append length_run)
      qed
    qed
  qed
  from B s' have f: "lastDims s' = d2" by simp
  from a b c e f show ?thesis by blast
qed


section \<open>The pump theorems on sample sessions\<close>

lemma sample_second:
  "run [sampleTick (640, 480) ''library'' (Masks [1, 0]) 5,
        sampleTick (640, 480) ''library'' NoMasks 5] initState =
     (\<lparr>lastDims = (640, 480), lastBgKey = None, frameCount = 2,
       maskAlloc = (256, 144), hasMask = True, blendMask = Some (Cells [1, 0]),
       avgFrameTime = 1391 / 100, skipInterval = 2, texelSize = (1 / 640, 1 / 480),
       videoTex = Some halfWhite, rawMaskTex = Some [1, 0], maskTex = Some (Cells [1, 0]),
       bgTex = BgPlaceholder\<rparr>,
      [[AllocVideoTex 640 480, UploadVideoFrame, Segment, AllocRawMaskTex, AllocMaskTex, Draw 1],
       [UploadVideoFrame, Segment, Draw 1]])"
  by (simp add: sample_first) (simp add: sample_eval)

theorem passthrough_witness:
  "run [sampleTick (640, 480) ''library'' (Masks [1, 0]) 5] initState
     = (fst (draw (sampleTick (640, 480) ''library'' (Masks [1, 0]) 5) initState),
        [snd (draw (sampleTick (640, 480) ''library'' (Masks [1, 0]) 5) initState)])
   \<and> videoEl (sampleTick (640, 480) ''none'' NoMasks 5) = Some (sampleVideo (640, 480))
   \<and> \<not> paused (sampleVideo (640, 480)) \<and> \<not> ended (sampleVideo (640, 480))
   \<and> curBg (sampleTick (640, 480) ''none'' NoMasks 5) = ''none''
   \<and> hasMask (fst (draw (sampleTick (640, 480) ''library'' (Masks [1, 0]) 5) initState))
   \<and> filter isDraw (snd (draw (sampleTick (640, 480) ''none'' NoMasks 5)
        (fst (draw (sampleTick (640, 480) ''library'' (Masks [1, 0]) 5) initState))))
       = [Draw 0]
   \<and> videoTex (fst (draw (sampleTick (640, 480) ''none'' NoMasks 5)
        (fst (draw (sampleTick (640, 480) ''library'' (Masks [1, 0]) 5) initState))))
       = Some halfWhite"
proof -
  let ?T1 = "sampleTick (640, 480) ''library'' (Masks [1, 0]) 5"
  let ?T = "sampleTick (640, 480) ''none'' NoMasks 5"
  let ?s = "fst (draw ?T1 initState)"
  have h1: "run [?T1] initState = (?s, [snd (draw ?T1 initState)])" by (simp add: Let_def)
  have h2: "videoEl ?T = Some (sampleVideo (640, 480))" by (simp add: sampleTick_def)
  have h3: "\<not> paused (sampleVideo (640, 480))" and h4: "\<not> ended (sampleVideo (640, 480))"
    by (simp_all add: sampleVideo_def)
  have h5: "draw ?T ?s = (fst (draw ?T ?s), snd (draw ?T ?s))" by simp
  have h6: "curBg ?T = ''none''" by (simp add: sampleTick_def)
  then have h6': "curBg ?T = ''none'' \<or> \<not> curReady ?T \<or> \<not> segmenter ?T
         \<or> ((\<forall>i<length [?T1]. \<not> acquired ([?T1] ! i) ([snd (draw ?T1 initState)] ! i))
             \<and> \<not> acquired ?T (snd (draw ?T ?s)))" by simp
  have m: "hasMask ?s" by (simp add: sample_first)
  have p: "pixels (sampleVideo (640, 480)) = halfWhite" by (simp add: sampleVideo_def)
  from passthrough[OF h1 h2 h3 h4 h5 h6'] h1 h2 h3 h4 h6 m p show ?thesis by simp
qed

theorem first_mask_witness:
  "run [sampleTick (640, 480) ''library'' NoMasks 5] initState
     = (fst (draw (sampleTick (640, 480) ''library'' NoMasks 5) initState),
        [snd (draw (sampleTick (640, 480) ''library'' NoMasks 5) initState)])
   \<and> \<not> acquired (sampleTick (640, 480) ''library'' NoMasks 5)
          (snd (draw (sampleTick (640, 480) ''library'' NoMasks 5) initState))
   \<and> acquired (sampleTick (640, 480) ''library'' (Masks [1, 0]) 5)
        (snd (draw (sampleTick (640, 480) ''library'' (Masks [1, 0]) 5)
           (fst (draw (sampleTick (640, 480) ''library'' NoMasks 5) initState))))
   \<and> Draw 1 \<notin> set (snd (draw (sampleTick (640, 480) ''library'' NoMasks 5) initState))
   \<and> filter isDraw (snd (draw (sampleTick (640, 480) ''library'' (Masks [1, 0]) 5)
           (fst (draw (sampleTick (640, 480) ''library'' NoMasks 5) initState))))
       = [Draw 1]
   \<and> blendMask (fst (draw (sampleTick (640, 480) ''library'' (Masks [1, 0]) 5)
           (fst (draw (sampleTick (640, 480) ''library'' NoMasks 5) initState))))
       = Some (Cells [1, 0])"
proof -
  let ?TN = "sampleTick (640, 480) ''library'' NoMasks 5"
  let ?T1 = "sampleTick (640, 480) ''library'' (Masks [1, 0]) 5"
  let ?s = "fst (draw ?TN initState)"
  have h1: "run [?TN] initState = (?s, [snd (draw ?TN initState)])" by (simp add: Let_def)
  have n: "\<not> acquired ?TN (snd (draw ?TN initState))"
    by (simp add: acquired_def sampleTick_def)
  then have h2: "\<forall>i<length [?TN]. \<not> acquired ([?TN] ! i) ([snd (draw ?TN initState)] ! i)"
    by simp
  have h3: "draw ?T1 ?s = (fst (draw ?T1 ?s), snd (draw ?T1 ?s))" by simp
  have h4: "acquired ?T1 (snd (draw ?T1 ?s))"
    by (simp add: acquired_def) (simp add: sample_eval)
  have h5: "segOutcome ?T1 = Masks [1, 0]" by (simp add: sampleTick_def)
  from first_mask[OF h1 h2 h3 h4 h5] h1 n h4 show ?thesis by simp
qed

theorem skip_gate_witness:
  "curBg (sampleTick (640, 480) ''library'' (Masks [1, 0]) 5) \<noteq> ''none''
   \<and> curReady (sampleTick (640, 480) ''library'' (Masks [1, 0]) 5)
   \<and> segmenter (sampleTick (640, 480) ''library'' (Masks [1, 0]) 5)
   \<and> frameCount (fst (run [sampleTick (640, 480) ''library'' (Masks [1, 0]) 5,
                            sampleTick (640, 480) ''library'' NoMasks 5] initState)) = 2
   \<and> skipInterval (fst (run [sampleTick (640, 480) ''library'' (Masks [1, 0]) 5,
                              sampleTick (640, 480) ''library'' NoMasks 5] initState)) = 2
   \<and> Segment \<notin> set (snd (draw (sampleTick (640, 480) ''library'' (Masks [1, 0]) 5)
        (fst (run [sampleTick (640, 480) ''library'' (Masks [1, 0]) 5,
                   sampleTick (640, 480) ''library'' NoMasks 5] initState))))
   \<and> filter isDraw (snd (draw (sampleTick (640, 480) ''library'' (Masks [1, 0]) 5)
        (fst (run [sampleTick (640, 480) ''library'' (Masks [1, 0]) 5,
                   sampleTick (640, 480) ''library'' NoMasks 5] initState))))
       = [Draw 1]
   \<and> maskTex (fst (draw (sampleTick (640, 480) ''library'' (Masks [1, 0]) 5)
        (fst (run [sampleTick (640, 480) ''library'' (Masks [1, 0]) 5,
                   sampleTick (640, 480) ''library'' NoMasks 5] initState))))
       = Some (Cells [1, 0])"
proof -
  let ?T1 = "sampleTick (640, 480) ''library'' (Masks [1, 0]) 5"
  let ?TN = "sampleTick (640, 480) ''library'' NoMasks 5"
  let ?r = "run [?T1, ?TN] initState"
  have h1: "run [?T1, ?TN] initState = (fst ?r, snd ?r)" by simp
  have h2: "videoEl ?T1 = Some (sampleVideo (640, 480))" by (simp add: sampleTick_def)
  have h3: "\<not> paused (sampleVideo (640, 480))" and h4: "\<not> ended (sampleVideo (640, 480))"
    by (simp_all add: sampleVideo_def)
  have h5: "curBg ?T1 \<noteq> ''none''" and h6: "curReady ?T1" and h7: "segmenter ?T1"
    by (simp_all add: sampleTick_def)
  have h8: "draw ?T1 (fst ?r) = (fst (draw ?T1 (fst ?r)), snd (draw ?T1 (fst ?r)))" by simp
  have f: "frameCount (fst ?r) = 2" "skipInterval (fst ?r) = 2" "hasMask (fst ?r)"
    "maskTex (fst ?r) = Some (Cells [1, 0])"
    by (simp_all only: sample_second fst_conv state.simps)
  from skip_gate[OF h1 h2 h3 h4 h5 h6 h7 h8] h5 h6 h7 f show ?thesis by simp
qed

theorem video_realloc_witness:
  "lastDims (fst (draw (sampleTick (640, 480) ''none'' NoMasks 5) initState)) = (640, 480)
   \<and> (640, 480) \<noteq> (1280 :: nat, 720 :: nat)
   \<and> list_all (\<lambda>t. showsDims t (640, 480)) [sampleTick (640, 480) ''none'' NoMasks 5]
   \<and> list_all (\<lambda>t. showsDims t (1280, 720))
        [sampleTick (1280, 720) ''none'' NoMasks 5, sampleTick (1280, 720) ''none'' NoMasks 5]
   \<and> filter isAlloc (concat (snd (run
        ([sampleTick (640, 480) ''none'' NoMasks 5]
         @ [sampleTick (1280, 720) ''none'' NoMasks 5, sampleTick (1280, 720) ''none'' NoMasks 5])
        (fst (draw (sampleTick (640, 480) ''none'' NoMasks 5) initState)))))
       = [AllocVideoTex 1280 720]"
proof -
  let ?A = "sampleTick (640, 480) ''none'' NoMasks 5"
  let ?B = "sampleTick (1280, 720) ''none'' NoMasks 5"
  let ?s = "fst (draw ?A initState)"
  let ?r = "run ([?A] @ [?B, ?B]) ?s"
  have h1: "lastDims ?s = (640, 480)" by (simp add: sample_eval)
  have h2: "(640, 480) \<noteq> (1280 :: nat, 720 :: nat)" by simp
  have h3: "list_all (\<lambda>t. showsDims t (640, 480)) [?A]"
    by (simp add: showsDims_def sampleTick_def sampleVideo_def frameDims_def)
  have h4: "list_all (\<lambda>t. showsDims t (1280, 720)) [?B, ?B]"
    by (simp add: showsDims_def sampleTick_def sampleVideo_def frameDims_def)
  have h5: "[?B, ?B] \<noteq> []" by simp
  have h6: "?r = (fst ?r, snd ?r)" by simp
  from video_realloc[OF h1 h2 h3 h4 h5 h6] h1 h2 h3 h4 show ?thesis by simp
qed

end
